theory Spec2Isabelle
  imports Complex_Main "HOL-Library.Sublist"
begin

section \<open>Strings as the Python code uses them\<close>

text \<open>
  A Python \<open>str\<close> is modelled as a \<open>string\<close> (a list of 8-bit characters). The
  functions below are the string operations of the standard library that the program
  calls: \<open>s.split('\n')\<close>, \<open>sep.join(xs)\<close>, \<open>s.startswith(p)\<close>, \<open>int(s)\<close> on a run of
  decimal digits, \<open>str(n)\<close> of an integer, and substring search.
\<close>

definition NL :: char where
  "NL = CHR 0x0A"

fun split_nl :: "string \<Rightarrow> string list" where
  "split_nl [] = [[]]"
| "split_nl (c # cs) =
     (if c = NL then [] # split_nl cs
      else (case split_nl cs of [] \<Rightarrow> [[c]] | l # ls \<Rightarrow> (c # l) # ls))"

fun join :: "string \<Rightarrow> string list \<Rightarrow> string" where
  "join sep [] = []"
| "join sep [l] = l"
| "join sep (l # ls) = l @ sep @ join sep ls"

definition join_nl :: "string list \<Rightarrow> string" where
  "join_nl ls = join [NL] ls"

definition startswith :: "string \<Rightarrow> string \<Rightarrow> bool" where
  "startswith s p = (take (length p) s = p)"

definition endswith :: "string \<Rightarrow> string \<Rightarrow> bool" where
  "endswith s p = (length p \<le> length s \<and> drop (length s - length p) s = p)"

fun contains :: "string \<Rightarrow> string \<Rightarrow> bool" where
  "contains [] p = (p = [])"
| "contains (c # cs) p = (startswith (c # cs) p \<or> contains cs p)"

definition is_digit :: "char \<Rightarrow> bool" where
  "is_digit c = (c \<in> set ''0123456789'')"

definition digit_val :: "char \<Rightarrow> int" where
  "digit_val c = (case map_of (zip ''0123456789'' [0, 1, 2, 3, 4, 5, 6, 7, 8, 9]) c of
       Some d \<Rightarrow> d | None \<Rightarrow> 0)"

definition int_of_digits :: "string \<Rightarrow> int" where
  "int_of_digits ds = foldl (\<lambda>n c. 10 * n + digit_val c) 0 ds"

definition digit_char :: "nat \<Rightarrow> char" where
  "digit_char d = ''0123456789'' ! (d mod 10)"

fun str_nat :: "nat \<Rightarrow> string" where
  "str_nat n = (if n < 10 then [digit_char n] else str_nat (n div 10) @ [digit_char (n mod 10)])"

declare str_nat.simps [simp del]

definition str_int :: "int \<Rightarrow> string" where
  "str_int i = (if i < 0 then CHR ''-'' # str_nat (nat (- i)) else str_nat (nat i))"

definition lower_char :: "char \<Rightarrow> char" where
  "lower_char c =
     (case map_of (zip ''ABCDEFGHIJKLMNOPQRSTUVWXYZ'' ''abcdefghijklmnopqrstuvwxyz'') c of
        Some l \<Rightarrow> l | None \<Rightarrow> c)"

definition lower :: "string \<Rightarrow> string" where
  "lower s = map lower_char s"


section \<open>Diff parser (\<open>services/diff_parser.py\<close>)\<close>

subsection \<open>The noise patterns\<close>

text \<open>
  \<open>NOISE_PATTERNS\<close> are regular expressions of two shapes only: a literal that may occur
  anywhere in the path, and a literal (or an alternation of literals) followed by \<open>$\<close>.
  Python's \<open>$\<close> matches at the end of the string and also just before a newline that ends
  the string. All are compiled with \<open>re.IGNORECASE\<close>: path and literal are compared in
  lower case.
\<close>

datatype noise_pattern = Anywhere string | AtEnd "string list"

definition NOISE_PATTERNS :: "noise_pattern list" where
  "NOISE_PATTERNS =
    [AtEnd [''.lock''],
     AtEnd [''package-lock.json''],
     AtEnd [''yarn.lock''],
     AtEnd [''pnpm-lock.yaml''],
     AtEnd [''.min.js'', ''.min.css''],
     Anywhere ''node_modules/'',
     Anywhere ''.git/'',
     AtEnd [''.DS_Store''],
     AtEnd [''.log''],
     Anywhere ''dist/'',
     Anywhere ''build/'',
     AtEnd [''.pyc''],
     Anywhere ''__pycache__/'',
     AtEnd [''.png''],
     AtEnd [''.jpg''],
     AtEnd [''.jpeg''],
     AtEnd [''.gif''],
     AtEnd [''.svg''],
     AtEnd [''.ico''],
     Anywhere ''.woff'',
     AtEnd [''.woff2''],
     AtEnd [''.ttf''],
     AtEnd [''.eot'']]"

definition at_dollar :: "string \<Rightarrow> string \<Rightarrow> bool" where
  "at_dollar s lit = (endswith s lit \<or> endswith s (lit @ [NL]))"

fun pattern_search :: "noise_pattern \<Rightarrow> string \<Rightarrow> bool" where
  "pattern_search (Anywhere lit) s = contains (lower s) (lower lit)"
| "pattern_search (AtEnd alts) s = list_ex (\<lambda>lit. at_dollar (lower s) (lower lit)) alts"

definition is_noise_file :: "string \<Rightarrow> bool" where
  "is_noise_file filepath = list_ex (\<lambda>pattern. pattern_search pattern filepath) NOISE_PATTERNS"

subsection \<open>The per-file dictionary\<close>

text \<open>
  \<open>parse_diff\<close> builds one dictionary per file. A key that may be missing is an option
  (\<open>old_path\<close>, \<open>new_path\<close>: read with \<open>.get\<close>); the flags \<open>is_binary\<close> and
  \<open>is_deleted\<close> are only ever set to \<open>True\<close> and read with \<open>.get\<close>, so an absent key is
  \<open>False\<close>. The counts are Python integers.
\<close>

record diff_file =
  old_path :: "string option"
  new_path :: "string option"
  content :: string
  added_lines :: int
  removed_lines :: int
  is_binary :: bool
  is_deleted :: bool

definition new_diff_file :: "string \<Rightarrow> string \<Rightarrow> diff_file" where
  "new_diff_file op np =
     \<lparr>old_path = Some op, new_path = Some np, content = [], added_lines = 0,
      removed_lines = 0, is_binary = False, is_deleted = False\<rparr>"

subsection \<open>The two regular expressions of \<open>parse_diff\<close>\<close>

text \<open>
  \<open>re.match(r'diff --git a/(.+?) b/(.+?)$', line)\<close>: both groups are lazy and non-empty, a
  line holds no newline, so the first group ends at the first \<open>" b/"\<close> that starts after
  at least one character and leaves at least one character for the second group.
\<close>

fun split_at_b :: "string \<Rightarrow> (string \<times> string) option" where
  "split_at_b [] = None"
| "split_at_b (c # cs) =
     (if startswith cs '' b/'' \<and> 3 < length cs then Some ([c], drop 3 cs)
      else map_option (\<lambda>(a, b). (c # a, b)) (split_at_b cs))"

definition match_diff_header :: "string \<Rightarrow> (string \<times> string) option" where
  "match_diff_header line =
     (if startswith line ''diff --git a/'' then split_at_b (drop 13 line) else None)"

text \<open>
  \<open>re.match(r'@@ -(\d+)(?:,(\d+))? \+(\d+)(?:,(\d+))? @@', line)\<close>. \<open>range_spec\<close> reads
  \<open>(\d+)(?:,(\d+))?\<close>: the digits of the start, the optional count (group 2 or 4) and the
  rest of the line.
\<close>

definition range_spec :: "string \<Rightarrow> (string option \<times> string) option" where
  "range_spec s =
     (let start = takeWhile is_digit s; r = dropWhile is_digit s in
      if start = [] then None
      else (case r of
              c # r' \<Rightarrow>
                (if c = CHR '','' \<and> takeWhile is_digit r' \<noteq> []
                 then Some (Some (takeWhile is_digit r'), dropWhile is_digit r')
                 else Some (None, r))
            | [] \<Rightarrow> Some (None, r)))"

definition match_hunk_header :: "string \<Rightarrow> (string option \<times> string option) option" where
  "match_hunk_header line =
     (if startswith line ''@@ -'' then
        (case range_spec (drop 4 line) of
           None \<Rightarrow> None
         | Some (g2, r) \<Rightarrow>
             (if startswith r '' +'' then
                (case range_spec (drop 2 r) of
                   None \<Rightarrow> None
                 | Some (g4, r') \<Rightarrow> if startswith r' '' @@'' then Some (g2, g4) else None)
              else None))
      else None)"

text \<open>\<open>int(match.group(k) or 1)\<close>\<close>

definition group_or_1 :: "string option \<Rightarrow> int" where
  "group_or_1 g = (case g of None \<Rightarrow> 1 | Some ds \<Rightarrow> int_of_digits ds)"

subsection \<open>\<open>parse_diff\<close>\<close>

text \<open>
  The loop keeps \<open>files\<close>, \<open>current_file\<close> and \<open>current_lines\<close>. The dictionaries are
  mutable objects: \<open>files.append(current_file)\<close> stores a reference, and when a
  \<open>diff --git\<close> line does not match the header expression \<open>current_file\<close> stays bound to
  the dictionary just appended, which later lines go on mutating. So the dictionaries live
  in a store \<open>objs\<close> and \<open>files\<close>, \<open>current_file\<close> hold indices into it.
\<close>

record parse_state =
  objs :: "diff_file list"
  files :: "nat list"
  current_file :: "nat option"
  current_lines :: "string list"

definition update_obj :: "nat \<Rightarrow> (diff_file \<Rightarrow> diff_file) \<Rightarrow> parse_state \<Rightarrow> parse_state" where
  "update_obj r f st = st\<lparr>objs := (objs st)[r := f (objs st ! r)]\<rparr>"

definition append_line :: "string \<Rightarrow> parse_state \<Rightarrow> parse_state" where
  "append_line line st = st\<lparr>current_lines := current_lines st @ [line]\<rparr>"

definition close_current :: "parse_state \<Rightarrow> parse_state" where
  "close_current st =
     (case current_file st of
        None \<Rightarrow> st
      | Some r \<Rightarrow>
          (update_obj r (\<lambda>f. f\<lparr>content := join_nl (current_lines st)\<rparr>) st)
            \<lparr>files := files st @ [r]\<rparr>)"

definition parse_line :: "parse_state \<Rightarrow> string \<Rightarrow> parse_state" where
  "parse_line st line =
     (if startswith line ''diff --git'' then
        (let st1 = close_current st in
         case match_diff_header line of
           None \<Rightarrow> st1
         | Some (op, np) \<Rightarrow>
             st1\<lparr>objs := objs st1 @ [new_diff_file op np],
                 current_file := Some (length (objs st1)),
                 current_lines := [line]\<rparr>)
      else if startswith line ''index '' then
        (case current_file st of None \<Rightarrow> st | Some r \<Rightarrow> append_line line st)
      else if startswith line ''Binary files'' then
        (case current_file st of
           None \<Rightarrow> st
         | Some r \<Rightarrow> append_line line (update_obj r (\<lambda>f. f\<lparr>is_binary := True\<rparr>) st))
      else if startswith line ''new file mode'' then
        (case current_file st of None \<Rightarrow> st | Some r \<Rightarrow> append_line line st)
      else if startswith line ''deleted file mode'' then
        (case current_file st of
           None \<Rightarrow> st
         | Some r \<Rightarrow> append_line line (update_obj r (\<lambda>f. f\<lparr>is_deleted := True\<rparr>) st))
      else if startswith line ''@@'' then
        (case current_file st of
           None \<Rightarrow> st
         | Some r \<Rightarrow>
             (let st1 = append_line line st in
              case match_hunk_header line of
                None \<Rightarrow> st1
              | Some (g2, g4) \<Rightarrow>
                  update_obj r
                    (\<lambda>f. f\<lparr>removed_lines := removed_lines f + group_or_1 g2,
                           added_lines := added_lines f + group_or_1 g4\<rparr>) st1))
      else
        (case current_file st of
           None \<Rightarrow> st
         | Some r \<Rightarrow>
             (let st1 = append_line line st in
              if startswith line ''+'' \<and> \<not> startswith line ''+++'' then
                update_obj r (\<lambda>f. f\<lparr>added_lines := added_lines f + 1\<rparr>) st1
              else if startswith line ''-'' \<and> \<not> startswith line ''---'' then
                update_obj r (\<lambda>f. f\<lparr>removed_lines := removed_lines f + 1\<rparr>) st1
              else st1)))"

definition parse_init :: parse_state where
  "parse_init = \<lparr>objs = [], files = [], current_file = None, current_lines = []\<rparr>"

definition parse_diff :: "string \<Rightarrow> diff_file list" where
  "parse_diff diff_text =
     (if diff_text = [] then []
      else (let st = close_current (foldl parse_line parse_init (split_nl diff_text))
            in map (\<lambda>r. objs st ! r) (files st)))"

subsection \<open>\<open>filter_noise\<close>, \<open>chunk_large_file\<close>, \<open>get_file_summary\<close>\<close>

text \<open>\<open>file_info.get('new_path') or file_info.get('old_path', '')\<close>: an empty new path is
  falsy as a missing one is.\<close>

definition effective_path :: "diff_file \<Rightarrow> string" where
  "effective_path f =
     (case new_path f of
        Some p \<Rightarrow> if p \<noteq> [] then p else (case old_path f of Some q \<Rightarrow> q | None \<Rightarrow> [])
      | None \<Rightarrow> (case old_path f of Some q \<Rightarrow> q | None \<Rightarrow> []))"

fun filter_noise :: "diff_file list \<Rightarrow> diff_file list" where
  "filter_noise [] = []"
| "filter_noise (file_info # rest) =
     (if \<not> is_noise_file (effective_path file_info) then file_info # filter_noise rest
      else filter_noise rest)"

text \<open>
  The loop of \<open>chunk_large_file\<close> over \<open>(chunks, current_chunk, current_size)\<close>; sizes are
  Python integers, \<open>max_size\<close> is any integer.
\<close>

fun chunk_loop :: "int \<Rightarrow> string list \<Rightarrow> string list \<Rightarrow> int \<Rightarrow> string list \<Rightarrow> string list" where
  "chunk_loop max_size chunks current_chunk current_size [] =
     (if current_chunk \<noteq> [] then chunks @ [join_nl current_chunk] else chunks)"
| "chunk_loop max_size chunks current_chunk current_size (line # lines) =
     (let line_size = int (length line) + 1 in
      if current_size + line_size > max_size \<and> current_chunk \<noteq> [] then
        chunk_loop max_size (chunks @ [join_nl current_chunk]) [line] line_size lines
      else
        chunk_loop max_size chunks (current_chunk @ [line]) (current_size + line_size) lines)"

definition chunk_large_file :: "string \<Rightarrow> int \<Rightarrow> string list" where
  "chunk_large_file file_content max_size =
     (if int (length file_content) \<le> max_size then [file_content]
      else chunk_loop max_size [] [] 0 (split_nl file_content))"

definition file_status :: "diff_file \<Rightarrow> string" where
  "file_status f =
     (if is_deleted f then ''deleted''
      else if is_binary f then ''binary''
      else if (case old_path f of None \<Rightarrow> True | Some p \<Rightarrow> p = []) then ''new''
      else ''modified'')"

definition summary_line :: "diff_file \<Rightarrow> string" where
  "summary_line f =
     file_status f @ '': '' @ effective_path f @ '' (+'' @ str_int (added_lines f) @ ''/-''
       @ str_int (removed_lines f) @ '')''"

definition get_file_summary :: "diff_file list \<Rightarrow> string" where
  "get_file_summary fs = join_nl (map summary_line fs)"

section \<open>Token bucket (\<open>RateLimiter\<close> in \<open>workers/orchestrator.py\<close>)\<close>

text \<open>
  \<open>time.time()\<close> is a parameter of every call. The source computes the refill in binary
  floating point: every arithmetic result is rounded to a float. The rounding \<open>fl\<close> is a
  parameter (the identity gives exact arithmetic), and \<open>py_int\<close> is Python's \<open>int(x)\<close>,
  truncation toward zero. A zero \<open>per\<close> makes the division raise \<open>ZeroDivisionError\<close>
  before anything is written.
\<close>

datatype py_error = ZeroDivisionError

record rate_limiter =
  rate :: int
  per :: int
  tokens :: int
  last_refill :: real

definition RateLimiter_init :: "int \<Rightarrow> int \<Rightarrow> real \<Rightarrow> rate_limiter" where
  "RateLimiter_init r p now = \<lparr>rate = r, per = p, tokens = r, last_refill = now\<rparr>"

definition py_int :: "real \<Rightarrow> int" where
  "py_int x = (if 0 \<le> x then \<lfloor>x\<rfloor> else \<lceil>x\<rceil>)"

definition tokens_to_add :: "(real \<Rightarrow> real) \<Rightarrow> real \<Rightarrow> rate_limiter \<Rightarrow> int" where
  "tokens_to_add fl now s =
     (let elapsed = fl (now - last_refill s)
      in py_int (fl (fl (elapsed * real_of_int (rate s)) / real_of_int (per s))))"

definition refill :: "(real \<Rightarrow> real) \<Rightarrow> real \<Rightarrow> rate_limiter \<Rightarrow> rate_limiter" where
  "refill fl now s =
     (if tokens_to_add fl now s > 0
      then s\<lparr>tokens := min (rate s) (tokens s + tokens_to_add fl now s), last_refill := now\<rparr>
      else s)"

definition acquire :: "(real \<Rightarrow> real) \<Rightarrow> real \<Rightarrow> rate_limiter \<Rightarrow> py_error + (bool \<times> rate_limiter)" where
  "acquire fl now s =
     (if per s = 0 then Inl ZeroDivisionError
      else (let s1 = refill fl now s in
            if tokens s1 > 0 then Inr (True, s1\<lparr>tokens := tokens s1 - 1\<rparr>)
            else Inr (False, s1)))"

text \<open>A sequence of \<open>acquire\<close> calls at the given times: the result and the state after
  each call, up to the first call that raises.\<close>

fun acquire_trace :: "(real \<Rightarrow> real) \<Rightarrow> real list \<Rightarrow> rate_limiter \<Rightarrow> (bool \<times> rate_limiter) list" where
  "acquire_trace fl [] s = []"
| "acquire_trace fl (now # later) s =
     (case acquire fl now s of
        Inl e \<Rightarrow> []
      | Inr (ok, s') \<Rightarrow> (ok, s') # acquire_trace fl later s')"

section \<open>Analysis stages (\<open>workers/agents\<close>)\<close>

















subsection \<open>Synthesizer\<close>





section \<open>Work queue (\<open>services/queue.py\<close>) and task processing (\<open>Orchestrator.process_task\<close>)\<close>

subsection \<open>Tasks, settings and the stores\<close>

text \<open>\<open>PRMetadata\<close> and \<open>PRTask\<close> of \<open>models/pr.py\<close>; a \<open>datetime\<close> is kept as its ISO text.\<close>

record pr_metadata =
  pr_id :: int
  repository :: string
  owner :: string
  repo_name :: string
  title :: string
  author :: string
  base_branch :: string
  head_branch :: string
  head_sha :: string
  installation_id :: int
  webhook_delivery_id :: "string option"

record pr_task =
  pr_metadata :: pr_metadata
  queued_at :: string
  retry_count :: int

record settings =
  max_retries :: int
  retry_delay :: int

text \<open>
  The state outside the process: the two Redis lists (index 0 is the left end, where
  \<open>lpush\<close> inserts; \<open>brpop\<close> takes from the right end), the writes the status table has
  accepted, in order, and the delays handed to \<open>asyncio.sleep\<close>.
\<close>

record status_write =
  sw_pr_id :: int
  sw_repository :: string
  sw_status :: string
  sw_error_message :: "string option"

record dlq_entry =
  dlq_task :: string
  dlq_error :: string
  dlq_failed_at :: string

record world =
  pr_review_queue :: "string list"
  pr_review_dlq :: "dlq_entry list"
  status_writes :: "status_write list"
  sleeps :: "int list"

definition write_status :: "pr_task \<Rightarrow> string \<Rightarrow> string option \<Rightarrow> world \<Rightarrow> world" where
  "write_status task st msg w =
     w\<lparr>status_writes := status_writes w @
        [\<lparr>sw_pr_id = pr_id (pr_metadata task), sw_repository = repository (pr_metadata task),
          sw_status = st, sw_error_message = msg\<rparr>]\<rparr>"

subsection \<open>Queue operations\<close>

text \<open>
  \<open>task.model_dump_json()\<close> and the decoding \<open>PRTask(**json.loads(task_data))\<close> belong to
  libraries: \<open>enc\<close> and \<open>dec\<close> are parameters, \<open>dec\<close> giving \<open>None\<close> where the decoding
  raises. Whether a Redis command raises is a parameter of each call: \<open>None\<close> when it
  goes through, \<open>Some e\<close> when it raises \<open>e\<close>.
\<close>

definition enqueue :: "(pr_task \<Rightarrow> string) \<Rightarrow> string option \<Rightarrow> pr_task \<Rightarrow> world \<Rightarrow> bool \<times> world" where
  "enqueue enc lpush_raises task w =
     (case lpush_raises of
        None \<Rightarrow> (True, w\<lparr>pr_review_queue := enc task # pr_review_queue w\<rparr>)
      | Some e \<Rightarrow> (False, w))"

definition enqueue_dlq ::
  "(pr_task \<Rightarrow> string) \<Rightarrow> string option \<Rightarrow> string \<Rightarrow> pr_task \<Rightarrow> string \<Rightarrow> world \<Rightarrow> world" where
  "enqueue_dlq enc lpush_raises utcnow task err w =
     (case lpush_raises of
        None \<Rightarrow>
          w\<lparr>pr_review_dlq :=
              \<lparr>dlq_task = enc task, dlq_error = err, dlq_failed_at = utcnow\<rparr> # pr_review_dlq w\<rparr>
      | Some e \<Rightarrow> w)"

text \<open>
  \<open>brpop\<close> either raises \<open>redis.TimeoutError\<close>, raises something else, or replies: with
  nothing when the list stayed empty for the timeout, else with the rightmost entry,
  which it has removed.
\<close>

datatype brpop_outcome = BrpopReplies | BrpopTimeoutError | BrpopRaises string

definition dequeue ::
  "(string \<Rightarrow> pr_task option) \<Rightarrow> brpop_outcome \<Rightarrow> world \<Rightarrow> pr_task option \<times> world" where
  "dequeue dec brpop w =
     (case brpop of
        BrpopTimeoutError \<Rightarrow> (None, w)
      | BrpopRaises e \<Rightarrow> (None, w)
      | BrpopReplies \<Rightarrow>
          (if pr_review_queue w = [] then (None, w)
           else (let task_data = last (pr_review_queue w);
                     w' = w\<lparr>pr_review_queue := butlast (pr_review_queue w)\<rparr>
                 in (dec task_data, w'))))"

subsection \<open>\<open>process_task\<close>\<close>

text \<open>
  The statements of the main \<open>try\<close> block, in order; \<open>pipeline_raises\<close> names the first one
  that raises and \<open>str(e)\<close>. Each other field of the environment says whether that call
  raises: the insert and the read-back of \<open>db.create_pr_review\<close>, the two status updates
  outside the main block, the Redis push, and the clock read by \<open>enqueue_dlq\<close>.
\<close>

datatype step =
    FetchDiff | ProcessDiff | RunScout | RunReviewers | FetchDetails | RunSynthesizer
  | SaveResult | SaveUsage | PostComment | MarkCompleted

record task_env =
  create_pr_review_raises :: "string option"
  get_pr_review_raises :: "string option"
  mark_processing_raises :: "string option"
  pipeline_raises :: "(step \<times> string) option"
  mark_failed_raises :: "string option"
  lpush_raises :: "string option"
  utcnow :: string

text \<open>The \<open>except\<close> block of \<open>process_task\<close>, entered with \<open>str(e)\<close>; the first component is
  the exception that leaves \<open>process_task\<close>, if any.\<close>

definition handle_failure ::
  "settings \<Rightarrow> (pr_task \<Rightarrow> string) \<Rightarrow> task_env \<Rightarrow> pr_task \<Rightarrow> string \<Rightarrow> world \<Rightarrow> string option \<times> world" where
  "handle_failure cfg enc env task e w =
     (case mark_failed_raises env of
        Some e' \<Rightarrow> (Some e', w)
      | None \<Rightarrow>
          (let w1 = write_status task ''failed'' (Some e) w in
           if retry_count task \<ge> max_retries cfg then
             (None, enqueue_dlq enc (lpush_raises env) (utcnow env) task e w1)
           else
             (let task' = task\<lparr>retry_count := retry_count task + 1\<rparr>;
                  w2 = w1\<lparr>sleeps := sleeps w1 @ [retry_delay cfg * retry_count task']\<rparr>
              in (None, snd (enqueue enc (lpush_raises env) task' w2)))))"

definition process_task ::
  "settings \<Rightarrow> (pr_task \<Rightarrow> string) \<Rightarrow> task_env \<Rightarrow> pr_task \<Rightarrow> world \<Rightarrow> string option \<times> world" where
  "process_task cfg enc env task w =
     (case create_pr_review_raises env of
        Some e \<Rightarrow> (None, w)
      | None \<Rightarrow>
          (let w1 = write_status task ''pending'' None w in
           case get_pr_review_raises env of
             Some e \<Rightarrow> (None, w1)
           | None \<Rightarrow>
               (case mark_processing_raises env of
                  Some e \<Rightarrow> (None, w1)
                | None \<Rightarrow>
                    (let w2 = write_status task ''processing'' None w1 in
                     case pipeline_raises env of
                       None \<Rightarrow> (None, write_status task ''completed'' None w2)
                     | Some (s, e) \<Rightarrow> handle_failure cfg enc env task e w2))))"

text \<open>One turn of the loop of \<open>Orchestrator.start\<close>: a task, if one came, is processed.\<close>

definition worker_turn ::
  "settings \<Rightarrow> (pr_task \<Rightarrow> string) \<Rightarrow> (string \<Rightarrow> pr_task option) \<Rightarrow> brpop_outcome \<Rightarrow> task_env \<Rightarrow>
   world \<Rightarrow> world" where
  "worker_turn cfg enc dec brpop env w =
     (case dequeue dec brpop w of
        (None, w') \<Rightarrow> w'
      | (Some task, w') \<Rightarrow> snd (process_task cfg enc env task w'))"

text \<open>The order in which \<open>brpop\<close> hands out the entries of the list: rightmost first.\<close>

definition dequeue_order :: "world \<Rightarrow> string list" where
  "dequeue_order w = rev (pr_review_queue w)"

section \<open>Reference definitions and concrete inputs\<close>

text \<open>
  The independent re-scan of a file's reconstructed content: the number of its lines
  that start with \<open>+\<close> but not \<open>+++\<close>, and with \<open>-\<close> but not \<open>---\<close>.
\<close>

definition is_added_line :: "string \<Rightarrow> bool" where
  "is_added_line l = (startswith l ''+'' \<and> \<not> startswith l ''+++'')"

definition is_removed_line :: "string \<Rightarrow> bool" where
  "is_removed_line l = (startswith l ''-'' \<and> \<not> startswith l ''---'')"

definition rescan_added :: "string \<Rightarrow> int" where
  "rescan_added c = int (length (filter is_added_line (split_nl c)))"

definition rescan_removed :: "string \<Rightarrow> int" where
  "rescan_removed c = int (length (filter is_removed_line (split_nl c)))"

text \<open>A diff of one modified file: one hunk, one added line, two lines of context.\<close>

definition modified_file_diff :: string where
  "modified_file_diff = join_nl
     [''diff --git a/foo.py b/foo.py'',
      ''index 1111111..2222222 100644'',
      ''--- a/foo.py'',
      ''+++ b/foo.py'',
      ''@@ -1,2 +1,3 @@'',
      '' x = 1'',
      ''+y = 2'',
      '' z = 3'']"

text \<open>What \<open>git diff\<close> prints for a new, empty file.\<close>

definition empty_new_file_diff :: string where
  "empty_new_file_diff = join_nl
     [''diff --git a/empty.txt b/empty.txt'',
      ''new file mode 100644'',
      ''index 0000000..e69de29'']"

text \<open>Four parsed files: a source file, a lockfile, an image known by its old path only,
  and a document.\<close>

definition app_py :: diff_file where
  "app_py = new_diff_file ''src/app.py'' ''src/app.py''"

definition yarn_lock :: diff_file where
  "yarn_lock = new_diff_file ''yarn.lock'' ''yarn.lock''"

definition logo_moved :: diff_file where
  "logo_moved = (new_diff_file ''assets/Logo.PNG'' ''docs/readme.md'')\<lparr>new_path := None\<rparr>"

definition readme :: diff_file where
  "readme = new_diff_file ''README.md'' ''README.md''"





text \<open>Parsed files whose old and new path differ: a lockfile renamed to a source file, and
  a source file moved under \<open>dist/\<close>; and a file with no path at all.\<close>

definition lock_to_source :: diff_file where
  "lock_to_source = new_diff_file ''yarn.lock'' ''src/deps.py''"

definition source_to_dist :: diff_file where
  "source_to_dist = new_diff_file ''src/app.js'' ''dist/app.js''"

definition empty_new_path :: diff_file where
  "empty_new_path = new_diff_file ''old/Image.PNG'' []"

text \<open>Three lines, the second longer than five characters.\<close>

definition long_middle_line :: string where
  "long_middle_line = join_nl [''aa'', ''bbbbbbbb'', ''cc'']"

section \<open>Invariants and further concrete inputs\<close>

text \<open>
  The token count is within the bucket: between 0 and the capacity \<open>rate\<close>.
\<close>

definition tokens_in_range :: "rate_limiter \<Rightarrow> bool" where
  "tokens_in_range s = (0 \<le> tokens s \<and> tokens s \<le> rate s)"

text \<open>
  A bucket of three tokens per minute, created at time 0, once its three tokens are
  spent.
\<close>

definition drained :: rate_limiter where
  "drained = \<lparr>rate = 3, per = 60, tokens = 0, last_refill = 0\<rparr>"

text \<open>
  The invariant of the loop of \<open>chunk_large_file\<close>: \<open>current_size\<close> is the length of
  the joined \<open>current_chunk\<close> plus one, and that joined text fits \<open>max_size\<close> or is a
  single line.
\<close>

definition chunk_inv :: "int \<Rightarrow> string list \<Rightarrow> int \<Rightarrow> bool" where
  "chunk_inv m cur sz =
     (if cur = [] then sz = 0
      else sz = int (length (join_nl cur)) + 1
           \<and> (int (length (join_nl cur)) \<le> m \<or> length cur = 1))"

definition three_lines :: string where
  "three_lines = join_nl [''aa'', ''bb'', ''cc'', '''']"

text \<open>
  A task, a stand-in for the JSON encoding and decoding of tasks, the settings of
  \<open>config/settings.py\<close> (three retries, five seconds), and the environments and queues
  of the scenarios below.
\<close>

definition demo_task :: pr_task where
  "demo_task =
     \<lparr>pr_metadata =
        \<lparr>pr_id = 42, repository = ''acme/widgets'', owner = ''acme'', repo_name = ''widgets'',
         title = ''Add parser'', author = ''dev'', base_branch = ''main'',
         head_branch = ''feature'', head_sha = ''abc123'', installation_id = 7,
         webhook_delivery_id = None\<rparr>,
      queued_at = ''2024-01-01T00:00:00'', retry_count = 0\<rparr>"

definition demo_enc :: "pr_task \<Rightarrow> string" where
  "demo_enc t = ''task-'' @ str_int (pr_id (pr_metadata t)) @ ''-'' @ str_int (retry_count t)"

definition demo_dec :: "string \<Rightarrow> pr_task option" where
  "demo_dec s =
     (if s = ''task-42-0'' then Some demo_task
      else if s = ''task-42-1'' then Some (demo_task\<lparr>retry_count := 1\<rparr>)
      else None)"

definition demo_settings :: settings where
  "demo_settings = \<lparr>max_retries = 3, retry_delay = 5\<rparr>"

definition empty_world :: world where
  "empty_world = \<lparr>pr_review_queue = [], pr_review_dlq = [], status_writes = [], sleeps = []\<rparr>"

definition fetch_fails :: task_env where
  "fetch_fails =
     \<lparr>create_pr_review_raises = None, get_pr_review_raises = None,
      mark_processing_raises = None,
      pipeline_raises = Some (FetchDiff, ''502 Bad Gateway''), mark_failed_raises = None,
      lpush_raises = None, utcnow = ''2024-01-01T00:05:00''\<rparr>"

definition exhausted_task :: pr_task where
  "exhausted_task = demo_task\<lparr>retry_count := 3\<rparr>"

definition redis_down :: task_env where
  "redis_down = fetch_fails\<lparr>lpush_raises := Some ''Connection refused''\<rparr>"

definition status_store_down :: task_env where
  "status_store_down = fetch_fails\<lparr>create_pr_review_raises := Some ''connection lost''\<rparr>"

definition malformed_tail :: world where
  "malformed_tail = empty_world\<lparr>pr_review_queue := [''task-42-0'', ''{not json'']\<rparr>"

section \<open>Checks of the string functions\<close>

lemma split_nl_test: "split_nl (''ab'' @ [NL] @ ''c'' @ [NL]) = [''ab'', ''c'', '''']"
  by (simp add: NL_def)

lemma str_int_test: "str_int 120 = ''120'' \<and> str_int (- 7) = ''-7'' \<and> str_int 0 = ''0''"
  by (simp add: str_int_def str_nat.simps digit_char_def)

lemma lower_test: "lower ''Dist/A.PNG'' = ''dist/a.png''"
  by (simp add: lower_def lower_char_def)

lemma int_of_digits_test: "int_of_digits ''0123'' = 123"
  by (simp add: int_of_digits_def digit_val_def)

section \<open>Diff parser: counts, status, filter\<close>

text \<open>
  C1. The counts \<open>parse_diff\<close> records should equal the counts of a re-scan of the file's
  content for \<open>+\<close> and \<open>-\<close> lines. They do not: a hunk header adds its two counts to the
  same fields that the content lines then increment. For the diff of one modified file
  with the hunk \<open>@@ -1,2 +1,3 @@\<close> and one added line, \<open>parse_diff\<close> records 4 added and 2
  removed lines where the re-scan finds 1 and 0.
\<close>

theorem parse_diff_counts_differ_from_rescan:
  "map (\<lambda>f. (added_lines f, rescan_added (content f), removed_lines f, rescan_removed (content f)))
     (parse_diff modified_file_diff) = [(4, 1, 2, 0)]"
  by code_simp

text \<open>
  C9. A segment with a \<open>new file mode\<close> line should be flagged as new and summarised as
  \<open>new\<close>. The parser only keeps the line; the dictionary gets no flag, its old path is the
  path of the header, and the summary says \<open>modified\<close>.
\<close>

theorem new_file_summarised_as_modified:
  "map (\<lambda>f. (old_path f, new_path f, is_binary f, is_deleted f, file_status f))
     (parse_diff empty_new_file_diff)
     = [(Some ''empty.txt'', Some ''empty.txt'', False, False, ''modified'')]
   \<and> get_file_summary (parse_diff empty_new_file_diff) = ''modified: empty.txt (+0/-0)''"
  by code_simp

lemma filter_noise_filter:
  "filter_noise fs = filter (\<lambda>f. \<not> is_noise_file (effective_path f)) fs"
  by (induction fs) simp_all

lemma lower_char_idem: "lower_char (lower_char c) = lower_char c"
  by (simp add: lower_char_def)

lemma lower_idem: "lower (lower s) = lower s"
  by (simp add: lower_def lower_char_idem)

lemma is_noise_file_case_insensitive: "is_noise_file (lower p) = is_noise_file p"
proof -
  have "pattern_search pat (lower p) = pattern_search pat p" for pat
    by (cases pat) (simp_all add: lower_idem)
  then show ?thesis by (simp add: is_noise_file_def)
qed

text \<open>
  C8. \<open>filter_noise\<close> keeps exactly the entries whose effective path matches no noise
  pattern, in their order, and filtering its own output changes nothing. The match does
  not depend on the case of the path. The effective path is the new path when there is
  one that is not empty, else the old path, else the empty text.
\<close>

theorem filter_noise_exact_ordered_idempotent:
  "filter_noise fs = filter (\<lambda>f. \<not> is_noise_file (effective_path f)) fs
   \<and> set (filter_noise fs) = {f \<in> set fs. \<not> is_noise_file (effective_path f)}
   \<and> subseq (filter_noise fs) fs
   \<and> filter_noise (filter_noise fs) = filter_noise fs
   \<and> is_noise_file (lower p) = is_noise_file p
   \<and> (new_path f = Some n \<and> n \<noteq> [] \<longrightarrow> effective_path f = n)
   \<and> ((new_path f = None \<or> new_path f = Some []) \<and> old_path f = Some q \<longrightarrow>
        effective_path f = q)
   \<and> ((new_path f = None \<or> new_path f = Some []) \<and> old_path f = None \<longrightarrow>
        effective_path f = [])"
proof -
  have a: "filter_noise fs = filter (\<lambda>f. \<not> is_noise_file (effective_path f)) fs
     \<and> set (filter_noise fs) = {f \<in> set fs. \<not> is_noise_file (effective_path f)}
     \<and> subseq (filter_noise fs) fs
     \<and> filter_noise (filter_noise fs) = filter_noise fs
     \<and> is_noise_file (lower p) = is_noise_file p"
    by (simp add: filter_noise_filter is_noise_file_case_insensitive)
  have b: "new_path f = Some n \<and> n \<noteq> [] \<longrightarrow> effective_path f = n"
    by (simp add: effective_path_def)
  have c: "(new_path f = None \<or> new_path f = Some []) \<and> old_path f = Some q \<longrightarrow>
        effective_path f = q"
    by (auto simp add: effective_path_def)
  have d: "(new_path f = None \<or> new_path f = Some []) \<and> old_path f = None \<longrightarrow>
        effective_path f = []"
    by (auto simp add: effective_path_def)
  from a b c d show ?thesis by blast
qed

theorem filter_noise_witness:
  "filter_noise [app_py, lock_to_source, yarn_lock, source_to_dist, logo_moved, empty_new_path, readme]
     = [app_py, lock_to_source, readme]
   \<and> subseq [app_py, lock_to_source, readme]
        [app_py, lock_to_source, yarn_lock, source_to_dist, logo_moved, empty_new_path, readme]
   \<and> filter_noise [app_py, lock_to_source, readme] = [app_py, lock_to_source, readme]
   \<and> new_path lock_to_source = Some ''src/deps.py'' \<and> effective_path lock_to_source = ''src/deps.py''
   \<and> new_path logo_moved = None \<and> old_path logo_moved = Some ''assets/Logo.PNG''
   \<and> effective_path logo_moved = ''assets/Logo.PNG''
   \<and> new_path empty_new_path = Some [] \<and> old_path empty_new_path = Some ''old/Image.PNG''
   \<and> effective_path empty_new_path = ''old/Image.PNG''
   \<and> is_noise_file ''assets/Logo.PNG'' \<and> is_noise_file ''assets/logo.png''"
proof -
  let ?fs = "[app_py, lock_to_source, yarn_lock, source_to_dist, logo_moved, empty_new_path, readme]"
  have e: "filter_noise ?fs = [app_py, lock_to_source, readme]"
    by code_simp
  have "subseq (filter_noise ?fs) ?fs \<and> filter_noise (filter_noise ?fs) = filter_noise ?fs"
    using filter_noise_exact_ordered_idempotent [of ?fs] by blast
  then have s: "subseq [app_py, lock_to_source, readme] ?fs
       \<and> filter_noise [app_py, lock_to_source, readme] = [app_py, lock_to_source, readme]"
    by (simp only: e)
  have p: "new_path lock_to_source = Some ''src/deps.py''" "''src/deps.py'' \<noteq> []"
    "new_path logo_moved = None" "old_path logo_moved = Some ''assets/Logo.PNG''"
    "new_path empty_new_path = Some []" "old_path empty_new_path = Some ''old/Image.PNG''"
    by (simp_all add: lock_to_source_def logo_moved_def empty_new_path_def new_diff_file_def)
  have e1: "effective_path lock_to_source = ''src/deps.py''"
    using filter_noise_exact_ordered_idempotent [of _ _ lock_to_source "''src/deps.py''"] p(1,2)
    by blast
  have e2: "effective_path logo_moved = ''assets/Logo.PNG''"
    using filter_noise_exact_ordered_idempotent [of _ _ logo_moved _ "''assets/Logo.PNG''"] p(3,4)
    by blast
  have e3: "effective_path empty_new_path = ''old/Image.PNG''"
    using filter_noise_exact_ordered_idempotent [of _ _ empty_new_path _ "''old/Image.PNG''"] p(5,6)
    by blast
  have n1: "is_noise_file ''assets/logo.png''" by code_simp
  have l: "lower ''assets/Logo.PNG'' = ''assets/logo.png''" by code_simp
  have n2: "is_noise_file ''assets/Logo.PNG''"
    using filter_noise_exact_ordered_idempotent [of _ "''assets/Logo.PNG''"] n1
    unfolding l by blast
  from e s p e1 e2 e3 n1 n2 show ?thesis by (simp only: simp_thms)
qed

section \<open>Analysis stages: failure contract and fallback comment\<close>










section \<open>Token bucket: the count stays in range\<close>

lemma refill_fields: "rate (refill fl now s) = rate s" "per (refill fl now s) = per s"
  by (simp_all add: refill_def)

lemma refill_in_range: "tokens_in_range s \<Longrightarrow> tokens_in_range (refill fl now s)"
  by (auto simp add: tokens_in_range_def refill_def)

lemma acquire_in_range:
  assumes "tokens_in_range s" and "acquire fl now s = Inr (ok, s')"
  shows "tokens_in_range s' \<and> rate s' = rate s \<and> per s' = per s"
proof -
  from assms(1) have r: "tokens_in_range (refill fl now s)" by (rule refill_in_range)
  from assms(2) show ?thesis
    using r by (auto simp add: acquire_def Let_def tokens_in_range_def refill_fields split: if_splits)
qed

lemma acquire_trace_in_range:
  "tokens_in_range s \<Longrightarrow> (ok, s') \<in> set (acquire_trace fl ts s) \<Longrightarrow>
     tokens_in_range s' \<and> rate s' = rate s"
proof (induction ts arbitrary: s)
  case Nil
  then show ?case by simp
next
  case (Cons t ts)
  show ?case
  proof (cases "acquire fl t s")
    case (Inl e)
    with Cons.prems show ?thesis by simp
  next
    case (Inr p)
    obtain ok1 s1 where p: "p = (ok1, s1)" by (cases p)
    from Inr p Cons.prems(1) have s1: "tokens_in_range s1 \<and> rate s1 = rate s \<and> per s1 = per s"
      using acquire_in_range by blast
    from Cons.prems(2) Inr p have "(ok, s') = (ok1, s1) \<or> (ok, s') \<in> set (acquire_trace fl ts s1)"
      by simp
    then show ?thesis
    proof
      assume "(ok, s') = (ok1, s1)"
      with s1 show ?thesis by simp
    next
      assume "(ok, s') \<in> set (acquire_trace fl ts s1)"
      with Cons.IH [of s1] s1 show ?thesis by simp
    qed
  qed
qed

lemma acquire_trace_length:
  "per s \<noteq> 0 \<Longrightarrow> length (acquire_trace fl ts s) = length ts"
proof (induction ts arbitrary: s)
  case Nil
  then show ?case by simp
next
  case (Cons t ts)
  then show ?case
    by (auto simp add: acquire_def Let_def refill_fields split: sum.splits if_splits)
qed

text \<open>
  C5. For a bucket of capacity \<open>r \<ge> 0\<close>, any rounding \<open>fl\<close> of the float arithmetic and
  any sequence of \<open>acquire\<close> calls at any times, the token count after every call is
  between 0 and \<open>r\<close> (and every call returns when \<open>per\<close> is not 0); a refill keeps a count
  that is in range in range; \<open>acquire\<close> succeeds only when the refilled count is positive,
  and then takes one token; with a refilled count of 0 it fails.
\<close>

theorem rate_limiter_tokens_bounded:
  assumes "0 \<le> r"
  shows "((ok, s') \<in> set (acquire_trace fl ts (RateLimiter_init r p t0)) \<longrightarrow>
            0 \<le> tokens s' \<and> tokens s' \<le> r)
       \<and> (p \<noteq> 0 \<longrightarrow> length (acquire_trace fl ts (RateLimiter_init r p t0)) = length ts)
       \<and> (0 \<le> tokens s \<and> tokens s \<le> rate s \<longrightarrow>
            0 \<le> tokens (refill fl now s) \<and> tokens (refill fl now s) \<le> rate s)
       \<and> (acquire fl now s = Inr (True, s'') \<longrightarrow>
            0 < tokens (refill fl now s) \<and> tokens s'' = tokens (refill fl now s) - 1)
       \<and> (tokens (refill fl now s) = 0 \<and> per s \<noteq> 0 \<longrightarrow> acquire fl now s = Inr (False, refill fl now s))"
proof -
  from assms have i: "tokens_in_range (RateLimiter_init r p t0)"
    by (simp add: tokens_in_range_def RateLimiter_init_def)
  have a: "(ok, s') \<in> set (acquire_trace fl ts (RateLimiter_init r p t0)) \<longrightarrow>
            0 \<le> tokens s' \<and> tokens s' \<le> r"
    using acquire_trace_in_range [OF i, of ok s' fl ts]
    by (auto simp add: tokens_in_range_def RateLimiter_init_def)
  have b: "p \<noteq> 0 \<longrightarrow> length (acquire_trace fl ts (RateLimiter_init r p t0)) = length ts"
    using acquire_trace_length [of "RateLimiter_init r p t0" fl ts]
    by (simp add: RateLimiter_init_def)
  have c: "0 \<le> tokens s \<and> tokens s \<le> rate s \<longrightarrow>
            0 \<le> tokens (refill fl now s) \<and> tokens (refill fl now s) \<le> rate s"
    using refill_in_range [of s fl now] by (simp add: tokens_in_range_def refill_fields)
  have d: "acquire fl now s = Inr (True, s'') \<longrightarrow>
            0 < tokens (refill fl now s) \<and> tokens s'' = tokens (refill fl now s) - 1"
    by (auto simp add: acquire_def Let_def split: if_splits)
  have e: "tokens (refill fl now s) = 0 \<and> per s \<noteq> 0 \<longrightarrow> acquire fl now s = Inr (False, refill fl now s)"
    by (simp add: acquire_def Let_def)
  from a b c d e show ?thesis by blast
qed

theorem rate_limiter_witness:
  "(0::int) \<le> 3
   \<and> (False, drained) \<in> set (acquire_trace (\<lambda>x. x) [0, 1, 2, 3] (RateLimiter_init 3 60 0))
   \<and> 0 \<le> tokens drained \<and> tokens drained \<le> 3
   \<and> length (acquire_trace (\<lambda>x. x) [0, 1, 2, 3] (RateLimiter_init 3 60 0)) = 4
   \<and> tokens (refill (\<lambda>x. x) 3 drained) = 0
   \<and> acquire (\<lambda>x. x) 3 drained = Inr (False, refill (\<lambda>x. x) 3 drained)"
proof -
  have r: "(0::int) \<le> 3" by simp
  have m: "(False, drained) \<in> set (acquire_trace (\<lambda>x. x) [0, 1, 2, 3] (RateLimiter_init 3 60 0))"
    by (simp add: drained_def RateLimiter_init_def acquire_def refill_def tokens_to_add_def
        py_int_def Let_def)
  have p: "(60::int) \<noteq> 0" "per drained \<noteq> 0" by (simp_all add: drained_def)
  have z: "tokens (refill (\<lambda>x. x) 3 drained) = 0"
    by (simp add: drained_def refill_def tokens_to_add_def py_int_def)
  from rate_limiter_tokens_bounded [OF r, of False drained "\<lambda>x. x" "[0, 1, 2, 3]" 60 0 drained 3 drained]
    m p z
  have "0 \<le> tokens drained \<and> tokens drained \<le> 3
      \<and> length (acquire_trace (\<lambda>x. x) [0, 1, 2, 3] (RateLimiter_init 3 60 0)) = length [0::real, 1, 2, 3]
      \<and> acquire (\<lambda>x. x) 3 drained = Inr (False, refill (\<lambda>x. x) 3 drained)"
    by blast
  with r m z show ?thesis by simp
qed

section \<open>Chunking: whole lines, bounded when the lines are\<close>

lemma split_nl_nonempty: "split_nl s \<noteq> []"
  by (induction s) (auto split: list.splits)

lemma split_nl_no_newline: "l \<in> set (split_nl s) \<Longrightarrow> NL \<notin> set l"
proof (induction s arbitrary: l)
  case Nil
  then show ?case by simp
next
  case (Cons c cs)
  show ?case
  proof (cases "c = NL")
    case True
    with Cons show ?thesis by auto
  next
    case False
    obtain x xs where sp: "split_nl cs = x # xs"
      using split_nl_nonempty [of cs] by (cases "split_nl cs") auto
    with False Cons.prems have "l = c # x \<or> l \<in> set xs" by simp
    then show ?thesis
    proof
      assume "l = c # x"
      moreover have "NL \<notin> set x" using Cons.IH [of x] sp by simp
      ultimately show ?thesis using False by auto
    next
      assume "l \<in> set xs"
      then show ?thesis using Cons.IH [of l] sp by simp
    qed
  qed
qed

lemma split_nl_line: "NL \<notin> set l \<Longrightarrow> split_nl l = [l]"
  by (induction l) auto

lemma split_nl_append: "NL \<notin> set l \<Longrightarrow> split_nl (l @ NL # r) = l # split_nl r"
  by (induction l) auto

lemma split_join_nl:
  "ls \<noteq> [] \<Longrightarrow> \<forall>l \<in> set ls. NL \<notin> set l \<Longrightarrow> split_nl (join_nl ls) = ls"
proof (induction ls)
  case Nil
  then show ?case by simp
next
  case (Cons l ls)
  show ?case
  proof (cases ls)
    case Nil
    with Cons.prems show ?thesis by (simp add: join_nl_def split_nl_line)
  next
    case (Cons l' ls')
    with Cons.prems Cons.IH have "split_nl (join_nl ls) = ls" by simp
    with Cons Cons.prems show ?thesis
      by (simp add: join_nl_def split_nl_append)
  qed
qed

lemma chunk_loop_acc:
  "chunk_loop m chunks cur sz ls = chunks @ chunk_loop m [] cur sz ls"
proof (induction ls arbitrary: chunks cur sz)
  case Nil
  then show ?case by simp
next
  case (Cons l ls)
  show ?case
  proof (cases "sz + (int (length l) + 1) > m \<and> cur \<noteq> []")
    case True
    then show ?thesis
      using Cons.IH [of "chunks @ [join_nl cur]" "[l]" "int (length l) + 1"]
        Cons.IH [of "[join_nl cur]" "[l]" "int (length l) + 1"]
      by (simp add: Let_def)
  next
    case False
    then show ?thesis
      using Cons.IH [of chunks "cur @ [l]" "sz + (int (length l) + 1)"]
      by (auto simp add: Let_def)
  qed
qed

lemma chunk_loop_lines:
  "\<forall>l \<in> set (cur @ ls). NL \<notin> set l \<Longrightarrow>
     concat (map split_nl (chunk_loop m [] cur sz ls)) = cur @ ls"
proof (induction ls arbitrary: cur sz)
  case Nil
  then show ?case by (simp add: split_join_nl)
next
  case (Cons l ls)
  show ?case
  proof (cases "sz + (int (length l) + 1) > m \<and> cur \<noteq> []")
    case True
    have "chunk_loop m [] cur sz (l # ls) = [join_nl cur] @ chunk_loop m [] [l] (int (length l) + 1) ls"
      using True chunk_loop_acc [of m "[join_nl cur]" "[l]" "int (length l) + 1" ls]
      by (simp add: Let_def)
    moreover have "concat (map split_nl (chunk_loop m [] [l] (int (length l) + 1) ls)) = [l] @ ls"
      using Cons.IH [of "[l]"] Cons.prems by simp
    moreover have "split_nl (join_nl cur) = cur"
      using True Cons.prems by (simp add: split_join_nl)
    ultimately show ?thesis by simp
  next
    case False
    then have "chunk_loop m [] cur sz (l # ls) = chunk_loop m [] (cur @ [l]) (sz + (int (length l) + 1)) ls"
      by (auto simp add: Let_def)
    moreover have "concat (map split_nl (chunk_loop m [] (cur @ [l]) (sz + (int (length l) + 1)) ls)) = (cur @ [l]) @ ls"
      using Cons.IH [of "cur @ [l]"] Cons.prems by simp
    ultimately show ?thesis by simp
  qed
qed

lemma length_join_snoc:
  "cur \<noteq> [] \<Longrightarrow> length (join_nl (cur @ [l])) = length (join_nl cur) + 1 + length l"
proof (induction cur)
  case Nil
  then show ?case by simp
next
  case (Cons c cur)
  then show ?case by (cases cur) (simp_all add: join_nl_def)
qed

lemma join_nl_single: "length cur = 1 \<Longrightarrow> join_nl cur \<in> set cur"
  by (cases cur) (simp_all add: join_nl_def)

lemma chunk_inv_emit:
  "chunk_inv m cur sz \<Longrightarrow> cur \<noteq> [] \<Longrightarrow>
     int (length (join_nl cur)) \<le> m \<or> join_nl cur \<in> set cur"
  using join_nl_single [of cur] by (auto simp add: chunk_inv_def)

lemma chunk_loop_sizes:
  "chunk_inv m cur sz \<Longrightarrow> c \<in> set (chunk_loop m [] cur sz ls) \<Longrightarrow>
     int (length c) \<le> m \<or> c \<in> set cur \<union> set ls"
proof (induction ls arbitrary: cur sz)
  case Nil
  then show ?case
    using chunk_inv_emit [of m cur sz] by (auto split: if_splits)
next
  case (Cons l ls)
  have one: "chunk_inv m [l] (int (length l) + 1)"
    by (simp add: chunk_inv_def join_nl_def)
  show ?case
  proof (cases "sz + (int (length l) + 1) > m \<and> cur \<noteq> []")
    case True
    have "chunk_loop m [] cur sz (l # ls) = [join_nl cur] @ chunk_loop m [] [l] (int (length l) + 1) ls"
      using True chunk_loop_acc [of m "[join_nl cur]" "[l]" "int (length l) + 1" ls]
      by (simp add: Let_def)
    with Cons.prems(2) have "c = join_nl cur \<or> c \<in> set (chunk_loop m [] [l] (int (length l) + 1) ls)"
      by simp
    then show ?thesis
    proof
      assume "c = join_nl cur"
      with True chunk_inv_emit [OF Cons.prems(1)] show ?thesis by auto
    next
      assume "c \<in> set (chunk_loop m [] [l] (int (length l) + 1) ls)"
      with Cons.IH [OF one] show ?thesis by auto
    qed
  next
    case False
    then have e: "chunk_loop m [] cur sz (l # ls) = chunk_loop m [] (cur @ [l]) (sz + (int (length l) + 1)) ls"
      by (auto simp add: Let_def)
    have "chunk_inv m (cur @ [l]) (sz + (int (length l) + 1))"
    proof (cases "cur = []")
      case True
      with Cons.prems(1) one show ?thesis by (simp add: chunk_inv_def)
    next
      case cur: False
      with False have "sz + (int (length l) + 1) \<le> m" by simp
      with cur Cons.prems(1) show ?thesis
        by (auto simp add: chunk_inv_def length_join_snoc)
    qed
    with Cons.IH [of "cur @ [l]" "sz + (int (length l) + 1)"] Cons.prems(2) e show ?thesis by auto
  qed
qed

text \<open>
  C7, as the code has it. The lines of the chunks, in order, are exactly the lines of
  the input: no line is split. Every chunk either fits \<open>max_size\<close> or is one line of the
  input, kept whole; so every chunk fits \<open>max_size\<close> when every line of the input does.
\<close>

theorem chunk_whole_lines_and_bounded:
  "concat (map split_nl (chunk_large_file s m)) = split_nl s
   \<and> (\<forall>c \<in> set (chunk_large_file s m). int (length c) \<le> m \<or> c \<in> set (split_nl s))
   \<and> ((\<forall>l \<in> set (split_nl s). int (length l) \<le> m) \<longrightarrow>
        (\<forall>c \<in> set (chunk_large_file s m). int (length c) \<le> m))"
proof -
  have a: "concat (map split_nl (chunk_large_file s m)) = split_nl s"
    using chunk_loop_lines [of "[]" "split_nl s" m 0] split_nl_no_newline [of _ s]
    by (auto simp add: chunk_large_file_def)
  have b: "\<forall>c \<in> set (chunk_large_file s m). int (length c) \<le> m \<or> c \<in> set (split_nl s)"
    using chunk_loop_sizes [of m "[]" 0 _ "split_nl s"]
    by (auto simp add: chunk_large_file_def chunk_inv_def)
  from b have c: "(\<forall>l \<in> set (split_nl s). int (length l) \<le> m) \<longrightarrow>
        (\<forall>c \<in> set (chunk_large_file s m). int (length c) \<le> m)"
    by blast
  from a b c show ?thesis by blast
qed

text \<open>
  C7 as stated fails: one line of ten characters with \<open>max_size = 5\<close> comes back as one
  chunk of ten characters.
\<close>

theorem chunk_long_line_exceeds_max_size:
  "chunk_large_file ''aaaaaaaaaa'' 5 = [''aaaaaaaaaa''] \<and> (5::int) < int (length ''aaaaaaaaaa'')"
  by code_simp

theorem chunk_witness:
  "split_nl three_lines = [''aa'', ''bb'', ''cc'', '''']
   \<and> chunk_large_file three_lines 5 = [''aa'', ''bb'', ''cc'' @ [NL]]
   \<and> concat (map split_nl [''aa'', ''bb'', ''cc'' @ [NL]]) = [''aa'', ''bb'', ''cc'', '''']
   \<and> list_all (\<lambda>l. int (length l) \<le> 5) [''aa'', ''bb'', ''cc'', '''']
   \<and> list_all (\<lambda>c. int (length c) \<le> 5) [''aa'', ''bb'', ''cc'' @ [NL]]
   \<and> split_nl long_middle_line = [''aa'', ''bbbbbbbb'', ''cc'']
   \<and> chunk_large_file long_middle_line 5 = [''aa'', ''bbbbbbbb'', ''cc'']
   \<and> list_all (\<lambda>c. int (length c) \<le> 5 \<or> c \<in> set [''aa'', ''bbbbbbbb'', ''cc''])
        [''aa'', ''bbbbbbbb'', ''cc'']"
proof -
  have sp: "split_nl three_lines = [''aa'', ''bb'', ''cc'', '''']" by code_simp
  have ch: "chunk_large_file three_lines 5 = [''aa'', ''bb'', ''cc'' @ [NL]]" by code_simp
  have sp2: "split_nl long_middle_line = [''aa'', ''bbbbbbbb'', ''cc'']" by code_simp
  have ch2: "chunk_large_file long_middle_line 5 = [''aa'', ''bbbbbbbb'', ''cc'']" by code_simp
  have hyp: "\<forall>l \<in> set (split_nl three_lines). int (length l) \<le> 5"
    unfolding sp by simp
  from chunk_whole_lines_and_bounded [of three_lines 5] hyp
  have one: "concat (map split_nl (chunk_large_file three_lines 5)) = split_nl three_lines
        \<and> (\<forall>c \<in> set (chunk_large_file three_lines 5). int (length c) \<le> 5)"
    by blast
  from chunk_whole_lines_and_bounded [of long_middle_line 5]
  have two: "\<forall>c \<in> set (chunk_large_file long_middle_line 5).
               int (length c) \<le> 5 \<or> c \<in> set (split_nl long_middle_line)"
    by blast
  have a: "concat (map split_nl [''aa'', ''bb'', ''cc'' @ [NL]]) = [''aa'', ''bb'', ''cc'', '''']
      \<and> list_all (\<lambda>c. int (length c) \<le> 5) [''aa'', ''bb'', ''cc'' @ [NL]]"
    using one unfolding sp ch by (simp add: list_all_iff)
  have b: "list_all (\<lambda>c. int (length c) \<le> 5 \<or> c \<in> set [''aa'', ''bbbbbbbb'', ''cc''])
        [''aa'', ''bbbbbbbb'', ''cc'']"
    using two unfolding sp2 ch2 by (simp add: list_all_iff)
  have c: "list_all (\<lambda>l. int (length l) \<le> 5) [''aa'', ''bb'', ''cc'', '''']" by simp
  from a b c sp ch sp2 ch2 show ?thesis by (simp only: simp_thms)
qed

section \<open>Task failure: retry, dead letter, and what is dropped\<close>

lemma process_task_failure:
  assumes "create_pr_review_raises env = None" and "get_pr_review_raises env = None"
    and "mark_processing_raises env = None"
    and "pipeline_raises env = Some (s, e)"
  shows "process_task cfg enc env task w =
           handle_failure cfg enc env task e
             (write_status task ''processing'' None (write_status task ''pending'' None w))"
  using assms by (simp add: process_task_def Let_def)

lemma handle_failure_dead_letter:
  assumes "mark_failed_raises env = None" and "lpush_raises env = None"
    and "max_retries cfg \<le> retry_count task"
  shows "handle_failure cfg enc env task e w =
           (None, (write_status task ''failed'' (Some e) w)
              \<lparr>pr_review_dlq :=
                 \<lparr>dlq_task = enc task, dlq_error = e, dlq_failed_at = utcnow env\<rparr> # pr_review_dlq w\<rparr>)"
  using assms by (simp add: handle_failure_def Let_def enqueue_dlq_def write_status_def)

lemma handle_failure_retry:
  assumes "mark_failed_raises env = None" and "lpush_raises env = None"
    and "retry_count task < max_retries cfg"
  shows "handle_failure cfg enc env task e w =
           (None, (write_status task ''failed'' (Some e) w)
              \<lparr>sleeps := sleeps w @ [retry_delay cfg * (retry_count task + 1)],
               pr_review_queue :=
                 enc (task\<lparr>retry_count := retry_count task + 1\<rparr>) # pr_review_queue w\<rparr>)"
  using assms by (simp add: handle_failure_def Let_def enqueue_def write_status_def)

lemma handle_failure_no_requeue_at_ceiling:
  "max_retries cfg \<le> retry_count task \<Longrightarrow>
     pr_review_queue (snd (handle_failure cfg enc env task e w)) = pr_review_queue w"
  by (simp add: handle_failure_def Let_def enqueue_dlq_def write_status_def
      split: option.splits)

lemma handle_failure_dlq_at_most_one:
  "length (pr_review_dlq (snd (handle_failure cfg enc env task e w))) \<le> Suc (length (pr_review_dlq w))"
  by (simp add: handle_failure_def Let_def enqueue_dlq_def enqueue_def write_status_def
      split: option.splits)

lemma write_status_fields:
  "pr_review_queue (write_status task st msg w) = pr_review_queue w"
  "pr_review_dlq (write_status task st msg w) = pr_review_dlq w"
  "sleeps (write_status task st msg w) = sleeps w"
  by (simp_all add: write_status_def)

lemma handle_failure_push_fails:
  assumes "mark_failed_raises env = None" and "lpush_raises env = Some x"
  shows "fst (handle_failure cfg enc env task e w) = None
       \<and> pr_review_queue (snd (handle_failure cfg enc env task e w)) = pr_review_queue w
       \<and> pr_review_dlq (snd (handle_failure cfg enc env task e w)) = pr_review_dlq w"
  using assms
  by (simp add: handle_failure_def Let_def enqueue_dlq_def enqueue_def write_status_def)

lemma handle_failure_update_fails:
  "mark_failed_raises env = Some x \<Longrightarrow> handle_failure cfg enc env task e w = (Some x, w)"
  by (simp add: handle_failure_def)

text \<open>
  C2, as the code has it. Let the main \<open>try\<close> block of a task raise \<open>e\<close>. If the
  \<open>failed\<close> status update and the Redis push both go through: a task whose
  \<open>retry_count\<close> has reached \<open>max_retries\<close> gets exactly one entry at the dead-letter list
  (the task, \<open>e\<close>, the timestamp) and no delay; any other task has \<open>retry_count\<close> raised by
  one, the delay \<open>retry_delay * retry_count\<close> of the new count is slept, and the task is
  pushed on the primary list, where it is dequeued after every entry already there.
  Whatever the stores do, a task at the ceiling is never put back on the primary list and
  gets at most one dead-letter entry. When the Redis push raises after the \<open>failed\<close>
  update went through, \<open>enqueue_dlq\<close> and \<open>enqueue\<close> only log: the task is in neither list,
  at the ceiling or below it. When the \<open>failed\<close> update raises, the exception leaves
  \<open>process_task\<close> and neither list changes.
\<close>

theorem retry_policy_when_stores_accept:
  assumes "create_pr_review_raises env = None" and "get_pr_review_raises env = None"
    and "mark_processing_raises env = None"
    and "pipeline_raises env = Some (s, e)"
  shows "(mark_failed_raises env = None \<and> lpush_raises env = None \<and> max_retries cfg \<le> retry_count task \<longrightarrow>
            fst (process_task cfg enc env task w) = None
          \<and> pr_review_dlq (snd (process_task cfg enc env task w)) =
               \<lparr>dlq_task = enc task, dlq_error = e, dlq_failed_at = utcnow env\<rparr> # pr_review_dlq w
          \<and> sleeps (snd (process_task cfg enc env task w)) = sleeps w)
       \<and> (max_retries cfg \<le> retry_count task \<longrightarrow>
            pr_review_queue (snd (process_task cfg enc env task w)) = pr_review_queue w
          \<and> length (pr_review_dlq (snd (process_task cfg enc env task w))) \<le> Suc (length (pr_review_dlq w)))
       \<and> (mark_failed_raises env = None \<and> lpush_raises env = None \<and> retry_count task < max_retries cfg \<longrightarrow>
            fst (process_task cfg enc env task w) = None
          \<and> pr_review_queue (snd (process_task cfg enc env task w)) =
               enc (task\<lparr>retry_count := retry_count task + 1\<rparr>) # pr_review_queue w
          \<and> dequeue_order (snd (process_task cfg enc env task w)) =
               dequeue_order w @ [enc (task\<lparr>retry_count := retry_count task + 1\<rparr>)]
          \<and> sleeps (snd (process_task cfg enc env task w)) =
               sleeps w @ [retry_delay cfg * (retry_count task + 1)]
          \<and> pr_review_dlq (snd (process_task cfg enc env task w)) = pr_review_dlq w)
       \<and> (mark_failed_raises env = None \<and> lpush_raises env = Some x \<longrightarrow>
            fst (process_task cfg enc env task w) = None
          \<and> pr_review_queue (snd (process_task cfg enc env task w)) = pr_review_queue w
          \<and> pr_review_dlq (snd (process_task cfg enc env task w)) = pr_review_dlq w)
       \<and> (mark_failed_raises env = Some x \<longrightarrow>
            fst (process_task cfg enc env task w) = Some x
          \<and> pr_review_queue (snd (process_task cfg enc env task w)) = pr_review_queue w
          \<and> pr_review_dlq (snd (process_task cfg enc env task w)) = pr_review_dlq w)"
proof -
  let ?w2 = "write_status task ''processing'' None (write_status task ''pending'' None w)"
  have p: "process_task cfg enc env task w = handle_failure cfg enc env task e ?w2"
    using assms by (rule process_task_failure)
  have a: "mark_failed_raises env = None \<and> lpush_raises env = None \<and> max_retries cfg \<le> retry_count task \<longrightarrow>
            fst (process_task cfg enc env task w) = None
          \<and> pr_review_dlq (snd (process_task cfg enc env task w)) =
               \<lparr>dlq_task = enc task, dlq_error = e, dlq_failed_at = utcnow env\<rparr> # pr_review_dlq w
          \<and> sleeps (snd (process_task cfg enc env task w)) = sleeps w"
    unfolding p by (simp add: handle_failure_dead_letter write_status_fields)
  have b: "max_retries cfg \<le> retry_count task \<longrightarrow>
            pr_review_queue (snd (process_task cfg enc env task w)) = pr_review_queue w
          \<and> length (pr_review_dlq (snd (process_task cfg enc env task w))) \<le> Suc (length (pr_review_dlq w))"
    unfolding p
    using handle_failure_dlq_at_most_one [of cfg enc env task e ?w2]
    by (simp add: handle_failure_no_requeue_at_ceiling write_status_fields)
  have c: "mark_failed_raises env = None \<and> lpush_raises env = None \<and> retry_count task < max_retries cfg \<longrightarrow>
            fst (process_task cfg enc env task w) = None
          \<and> pr_review_queue (snd (process_task cfg enc env task w)) =
               enc (task\<lparr>retry_count := retry_count task + 1\<rparr>) # pr_review_queue w
          \<and> dequeue_order (snd (process_task cfg enc env task w)) =
               dequeue_order w @ [enc (task\<lparr>retry_count := retry_count task + 1\<rparr>)]
          \<and> sleeps (snd (process_task cfg enc env task w)) =
               sleeps w @ [retry_delay cfg * (retry_count task + 1)]
          \<and> pr_review_dlq (snd (process_task cfg enc env task w)) = pr_review_dlq w"
    unfolding p by (simp add: handle_failure_retry write_status_fields dequeue_order_def)
  have d: "mark_failed_raises env = None \<and> lpush_raises env = Some x \<longrightarrow>
            fst (process_task cfg enc env task w) = None
          \<and> pr_review_queue (snd (process_task cfg enc env task w)) = pr_review_queue w
          \<and> pr_review_dlq (snd (process_task cfg enc env task w)) = pr_review_dlq w"
    unfolding p
    using handle_failure_push_fails [of env x cfg enc task e ?w2]
    by (simp add: write_status_fields)
  have f: "mark_failed_raises env = Some x \<longrightarrow>
            fst (process_task cfg enc env task w) = Some x
          \<and> pr_review_queue (snd (process_task cfg enc env task w)) = pr_review_queue w
          \<and> pr_review_dlq (snd (process_task cfg enc env task w)) = pr_review_dlq w"
    unfolding p by (simp add: handle_failure_update_fails write_status_fields)
  from a b c d f show ?thesis by blast
qed

text \<open>
  C2 as stated fails: when the Redis push raises, \<open>enqueue_dlq\<close> only logs, and a task
  at the ceiling is in neither list.
\<close>

theorem dead_letter_lost_when_push_fails:
  "max_retries demo_settings \<le> retry_count exhausted_task
   \<and> pipeline_raises redis_down = Some (FetchDiff, ''502 Bad Gateway'')
   \<and> pr_review_dlq (snd (process_task demo_settings demo_enc redis_down exhausted_task empty_world)) = []
   \<and> pr_review_queue (snd (process_task demo_settings demo_enc redis_down exhausted_task empty_world)) = []
   \<and> retry_count demo_task < max_retries demo_settings
   \<and> pr_review_queue (snd (process_task demo_settings demo_enc redis_down demo_task empty_world)) = []
   \<and> pr_review_dlq (snd (process_task demo_settings demo_enc redis_down demo_task empty_world)) = []"
  by (simp add: demo_settings_def exhausted_task_def demo_task_def redis_down_def fetch_fails_def
      empty_world_def process_task_def handle_failure_def enqueue_dlq_def enqueue_def
      write_status_def Let_def)

theorem retry_policy_witness:
  "pr_review_queue (snd (process_task demo_settings demo_enc fetch_fails demo_task empty_world)) =
      [demo_enc (demo_task\<lparr>retry_count := 1\<rparr>)]
   \<and> sleeps (snd (process_task demo_settings demo_enc fetch_fails demo_task empty_world)) = [5]
   \<and> pr_review_dlq (snd (process_task demo_settings demo_enc fetch_fails demo_task empty_world)) = []
   \<and> pr_review_dlq (snd (process_task demo_settings demo_enc fetch_fails exhausted_task empty_world)) =
      [\<lparr>dlq_task = demo_enc exhausted_task, dlq_error = ''502 Bad Gateway'',
        dlq_failed_at = ''2024-01-01T00:05:00''\<rparr>]
   \<and> pr_review_queue (snd (process_task demo_settings demo_enc fetch_fails exhausted_task empty_world)) = []
   \<and> pr_review_queue (snd (process_task demo_settings demo_enc redis_down demo_task empty_world)) = []
   \<and> pr_review_dlq (snd (process_task demo_settings demo_enc redis_down demo_task empty_world)) = []"
proof -
  have h: "create_pr_review_raises fetch_fails = None" "mark_processing_raises fetch_fails = None"
    "pipeline_raises fetch_fails = Some (FetchDiff, ''502 Bad Gateway'')"
    "mark_failed_raises fetch_fails = None" "lpush_raises fetch_fails = None"
    "utcnow fetch_fails = ''2024-01-01T00:05:00''" "get_pr_review_raises fetch_fails = None"
    by (simp_all add: fetch_fails_def)
  have r: "retry_count demo_task < max_retries demo_settings" "retry_count demo_task = 0"
    "retry_delay demo_settings = 5"
    "max_retries demo_settings \<le> retry_count exhausted_task"
    by (simp_all add: demo_task_def demo_settings_def exhausted_task_def)
  have w: "pr_review_queue empty_world = []" "pr_review_dlq empty_world = []" "sleeps empty_world = []"
    by (simp_all add: empty_world_def)
  from retry_policy_when_stores_accept [OF h(1) h(7) h(2) h(3), of demo_settings demo_task demo_enc empty_world]
    h(4) h(5) r(1)
  have a: "pr_review_queue (snd (process_task demo_settings demo_enc fetch_fails demo_task empty_world)) =
             demo_enc (demo_task\<lparr>retry_count := retry_count demo_task + 1\<rparr>) # pr_review_queue empty_world
         \<and> sleeps (snd (process_task demo_settings demo_enc fetch_fails demo_task empty_world)) =
             sleeps empty_world @ [retry_delay demo_settings * (retry_count demo_task + 1)]
         \<and> pr_review_dlq (snd (process_task demo_settings demo_enc fetch_fails demo_task empty_world)) =
             pr_review_dlq empty_world"
    by blast
  from retry_policy_when_stores_accept [OF h(1) h(7) h(2) h(3), of demo_settings exhausted_task demo_enc empty_world]
    h(4) h(5) r(4)
  have b: "pr_review_dlq (snd (process_task demo_settings demo_enc fetch_fails exhausted_task empty_world)) =
             \<lparr>dlq_task = demo_enc exhausted_task, dlq_error = ''502 Bad Gateway'',
               dlq_failed_at = utcnow fetch_fails\<rparr> # pr_review_dlq empty_world
         \<and> pr_review_queue (snd (process_task demo_settings demo_enc fetch_fails exhausted_task empty_world)) =
             pr_review_queue empty_world"
    by blast
  have k: "create_pr_review_raises redis_down = None" "get_pr_review_raises redis_down = None"
    "mark_processing_raises redis_down = None"
    "pipeline_raises redis_down = Some (FetchDiff, ''502 Bad Gateway'')"
    "mark_failed_raises redis_down = None" "lpush_raises redis_down = Some ''Connection refused''"
    by (simp_all add: redis_down_def fetch_fails_def)
  from retry_policy_when_stores_accept [OF k(1) k(2) k(3) k(4), of demo_settings demo_task demo_enc
      empty_world "''Connection refused''"] k(5) k(6)
  have c: "pr_review_queue (snd (process_task demo_settings demo_enc redis_down demo_task empty_world)) =
             pr_review_queue empty_world
         \<and> pr_review_dlq (snd (process_task demo_settings demo_enc redis_down demo_task empty_world)) =
             pr_review_dlq empty_world"
    by blast
  from a b c show ?thesis
    by (simp add: w r(2) r(3) h(6))
qed

lemma process_task_no_record:
  "create_pr_review_raises env = Some e0 \<Longrightarrow> process_task cfg enc env task w = (None, w)"
  by (simp add: process_task_def)

lemma process_task_not_read:
  "create_pr_review_raises env = None \<Longrightarrow> get_pr_review_raises env = Some e0 \<Longrightarrow>
     process_task cfg enc env task w = (None, write_status task ''pending'' None w)"
  by (simp add: process_task_def Let_def)

lemma process_task_not_marked:
  "create_pr_review_raises env = None \<Longrightarrow> get_pr_review_raises env = None \<Longrightarrow>
     mark_processing_raises env = Some e0 \<Longrightarrow>
     process_task cfg enc env task w = (None, write_status task ''pending'' None w)"
  by (simp add: process_task_def Let_def)

lemma failure_reported_aux:
  assumes "create_pr_review_raises env = None" and "get_pr_review_raises env = None"
    and "mark_processing_raises env = None"
    and "pipeline_raises env = Some (s, e)"
    and "mark_failed_raises env = None" and "lpush_raises env = None"
  shows "last (status_writes (snd (process_task cfg enc env task w))) =
           \<lparr>sw_pr_id = pr_id (pr_metadata task), sw_repository = repository (pr_metadata task),
            sw_status = ''failed'', sw_error_message = Some e\<rparr>
       \<and> (pr_review_queue (snd (process_task cfg enc env task w)) =
             enc (task\<lparr>retry_count := retry_count task + 1\<rparr>) # pr_review_queue w
           \<and> pr_review_dlq (snd (process_task cfg enc env task w)) = pr_review_dlq w
         \<or> pr_review_dlq (snd (process_task cfg enc env task w)) =
             \<lparr>dlq_task = enc task, dlq_error = e, dlq_failed_at = utcnow env\<rparr> # pr_review_dlq w
           \<and> pr_review_queue (snd (process_task cfg enc env task w)) = pr_review_queue w)"
proof -
  let ?w2 = "write_status task ''processing'' None (write_status task ''pending'' None w)"
  have p: "process_task cfg enc env task w = handle_failure cfg enc env task e ?w2"
    using assms(1-4) by (rule process_task_failure)
  show ?thesis
  proof (cases "max_retries cfg \<le> retry_count task")
    case True
    show ?thesis
      unfolding p handle_failure_dead_letter [OF assms(5) assms(6) True]
      by (simp add: write_status_def)
  next
    case False
    then have lt: "retry_count task < max_retries cfg" by simp
    show ?thesis
      unfolding p handle_failure_retry [OF assms(5) assms(6) lt]
      by (simp add: write_status_def)
  qed
qed

text \<open>
  C3, as the code has it. An error in any statement \<open>s\<close> of the main \<open>try\<close> block, with
  the \<open>failed\<close> status update and the Redis push going through, leaves a \<open>failed\<close> status
  with the error text and either the task back on the primary list or an entry on the
  dead-letter list. A failure to insert the status record leaves nothing at all, and a
  failure to read it back or to mark it \<open>processing\<close> leaves the \<open>pending\<close> record only:
  \<open>process_task\<close> logs and returns.
\<close>

theorem failure_in_try_block_is_reported:
  "(create_pr_review_raises env = None \<and> get_pr_review_raises env = None
      \<and> mark_processing_raises env = None \<and> pipeline_raises env = Some (s, e)
      \<and> mark_failed_raises env = None \<and> lpush_raises env = None \<longrightarrow>
      last (status_writes (snd (process_task cfg enc env task w))) =
           \<lparr>sw_pr_id = pr_id (pr_metadata task), sw_repository = repository (pr_metadata task),
            sw_status = ''failed'', sw_error_message = Some e\<rparr>
       \<and> (pr_review_queue (snd (process_task cfg enc env task w)) =
             enc (task\<lparr>retry_count := retry_count task + 1\<rparr>) # pr_review_queue w
           \<and> pr_review_dlq (snd (process_task cfg enc env task w)) = pr_review_dlq w
         \<or> pr_review_dlq (snd (process_task cfg enc env task w)) =
             \<lparr>dlq_task = enc task, dlq_error = e, dlq_failed_at = utcnow env\<rparr> # pr_review_dlq w
           \<and> pr_review_queue (snd (process_task cfg enc env task w)) = pr_review_queue w))
   \<and> (create_pr_review_raises env = Some e0 \<longrightarrow> process_task cfg enc env task w = (None, w))
   \<and> (create_pr_review_raises env = None
        \<and> (get_pr_review_raises env = Some e0
           \<or> get_pr_review_raises env = None \<and> mark_processing_raises env = Some e0) \<longrightarrow>
        process_task cfg enc env task w = (None, write_status task ''pending'' None w))"
  using failure_reported_aux [of env s e cfg enc task w]
    process_task_no_record [of env e0 cfg enc task w]
    process_task_not_marked [of env e0 cfg enc task w]
    process_task_not_read [of env e0 cfg enc task w]
  by blast

text \<open>
  C3 as stated fails: when \<open>create_pr_review\<close> raises, the task leaves no status record,
  is not put back on the queue and gets no dead-letter entry.
\<close>

theorem task_dropped_when_status_record_fails:
  "create_pr_review_raises status_store_down = Some ''connection lost''
   \<and> pipeline_raises status_store_down = Some (FetchDiff, ''502 Bad Gateway'')
   \<and> process_task demo_settings demo_enc status_store_down demo_task empty_world = (None, empty_world)
   \<and> status_writes empty_world = [] \<and> pr_review_queue empty_world = [] \<and> pr_review_dlq empty_world = []"
  by (simp add: status_store_down_def fetch_fails_def process_task_def empty_world_def)

theorem failure_reported_witness:
  "last (status_writes (snd (process_task demo_settings demo_enc fetch_fails demo_task empty_world))) =
      \<lparr>sw_pr_id = 42, sw_repository = ''acme/widgets'', sw_status = ''failed'',
       sw_error_message = Some ''502 Bad Gateway''\<rparr>
   \<and> pr_review_queue (snd (process_task demo_settings demo_enc fetch_fails demo_task empty_world)) =
      [demo_enc (demo_task\<lparr>retry_count := 1\<rparr>)]"
proof -
  have h: "create_pr_review_raises fetch_fails = None" "mark_processing_raises fetch_fails = None"
    "pipeline_raises fetch_fails = Some (FetchDiff, ''502 Bad Gateway'')"
    "mark_failed_raises fetch_fails = None" "lpush_raises fetch_fails = None"
    "get_pr_review_raises fetch_fails = None"
    by (simp_all add: fetch_fails_def)
  have q: "pr_review_queue (snd (process_task demo_settings demo_enc fetch_fails demo_task empty_world)) =
      [demo_enc (demo_task\<lparr>retry_count := 1\<rparr>)]"
    by (simp add: process_task_def handle_failure_def enqueue_def write_status_def Let_def
        fetch_fails_def demo_settings_def demo_task_def empty_world_def)
  from failure_in_try_block_is_reported [of fetch_fails FetchDiff "''502 Bad Gateway''" demo_settings demo_enc demo_task empty_world] h
  have "last (status_writes (snd (process_task demo_settings demo_enc fetch_fails demo_task empty_world))) =
           \<lparr>sw_pr_id = pr_id (pr_metadata demo_task), sw_repository = repository (pr_metadata demo_task),
            sw_status = ''failed'', sw_error_message = Some ''502 Bad Gateway''\<rparr>"
    by blast
  then show ?thesis using q by (simp add: demo_task_def)
qed

section \<open>Dequeue: every failure is an empty result\<close>

lemma dequeue_leaves_other_stores:
  "pr_review_dlq (snd (dequeue dec brpop w)) = pr_review_dlq w
   \<and> status_writes (snd (dequeue dec brpop w)) = status_writes w
   \<and> sleeps (snd (dequeue dec brpop w)) = sleeps w"
  by (cases brpop) (simp_all add: dequeue_def Let_def)

text \<open>
  C10. \<open>dequeue\<close> returns a task or \<open>None\<close>, never an exception: a Redis failure gives
  \<open>None\<close> and leaves the queue as it was, as a timeout does; an entry that cannot be
  decoded has been popped when the decoding fails, so the result is \<open>None\<close> again, the
  entry is gone from the queue, and the worker loop, having no task, does nothing with
  it. \<open>dequeue\<close> never writes to the dead-letter list or the status table.
\<close>

theorem dequeue_failure_is_empty_result:
  "(brpop \<noteq> BrpopReplies \<longrightarrow> dequeue dec brpop w = (None, w))
   \<and> (pr_review_queue w = [] \<longrightarrow> dequeue dec BrpopReplies w = (None, w))
   \<and> (pr_review_queue w \<noteq> [] \<and> dec (last (pr_review_queue w)) = None \<longrightarrow>
        dequeue dec BrpopReplies w = (None, w\<lparr>pr_review_queue := butlast (pr_review_queue w)\<rparr>)
      \<and> fst (dequeue dec BrpopReplies w) = fst (dequeue dec BrpopTimeoutError w)
      \<and> worker_turn cfg enc dec BrpopReplies env w = w\<lparr>pr_review_queue := butlast (pr_review_queue w)\<rparr>)
   \<and> pr_review_dlq (snd (dequeue dec brpop w)) = pr_review_dlq w
   \<and> status_writes (snd (dequeue dec brpop w)) = status_writes w"
proof -
  have a: "brpop \<noteq> BrpopReplies \<longrightarrow> dequeue dec brpop w = (None, w)"
    by (cases brpop) (simp_all add: dequeue_def)
  have b: "pr_review_queue w = [] \<longrightarrow> dequeue dec BrpopReplies w = (None, w)"
    by (simp add: dequeue_def)
  have c: "pr_review_queue w \<noteq> [] \<and> dec (last (pr_review_queue w)) = None \<longrightarrow>
        dequeue dec BrpopReplies w = (None, w\<lparr>pr_review_queue := butlast (pr_review_queue w)\<rparr>)
      \<and> fst (dequeue dec BrpopReplies w) = fst (dequeue dec BrpopTimeoutError w)
      \<and> worker_turn cfg enc dec BrpopReplies env w = w\<lparr>pr_review_queue := butlast (pr_review_queue w)\<rparr>"
    by (simp add: dequeue_def worker_turn_def Let_def)
  from a b c dequeue_leaves_other_stores [of dec brpop w] show ?thesis by blast
qed

theorem dequeue_malformed_witness:
  "pr_review_queue malformed_tail \<noteq> []
   \<and> demo_dec (last (pr_review_queue malformed_tail)) = None
   \<and> dequeue demo_dec BrpopReplies malformed_tail =
       (None, \<lparr>pr_review_queue = [''task-42-0''], pr_review_dlq = [], status_writes = [], sleeps = []\<rparr>)
   \<and> worker_turn demo_settings demo_enc demo_dec BrpopReplies fetch_fails malformed_tail =
       \<lparr>pr_review_queue = [''task-42-0''], pr_review_dlq = [], status_writes = [], sleeps = []\<rparr>
   \<and> dequeue demo_dec (BrpopRaises ''Connection refused'') malformed_tail = (None, malformed_tail)"
proof -
  have q: "pr_review_queue malformed_tail = [''task-42-0'', ''{not json'']"
    by (simp add: malformed_tail_def empty_world_def)
  have n: "pr_review_queue malformed_tail \<noteq> []" by (simp add: q)
  have d: "demo_dec (last (pr_review_queue malformed_tail)) = None"
    by (simp add: q demo_dec_def)
  have r: "BrpopRaises ''Connection refused'' \<noteq> BrpopReplies" by simp
  have u: "malformed_tail\<lparr>pr_review_queue := butlast (pr_review_queue malformed_tail)\<rparr> =
      \<lparr>pr_review_queue = [''task-42-0''], pr_review_dlq = [], status_writes = [], sleeps = []\<rparr>"
    by (simp add: malformed_tail_def empty_world_def)
  from dequeue_failure_is_empty_result [of BrpopReplies demo_dec malformed_tail demo_settings demo_enc fetch_fails]
    n d
  have a: "dequeue demo_dec BrpopReplies malformed_tail =
             (None, malformed_tail\<lparr>pr_review_queue := butlast (pr_review_queue malformed_tail)\<rparr>)
         \<and> worker_turn demo_settings demo_enc demo_dec BrpopReplies fetch_fails malformed_tail =
             malformed_tail\<lparr>pr_review_queue := butlast (pr_review_queue malformed_tail)\<rparr>"
    by blast
  from dequeue_failure_is_empty_result [of "BrpopRaises ''Connection refused''" demo_dec malformed_tail
      demo_settings demo_enc fetch_fails] r
  have b: "dequeue demo_dec (BrpopRaises ''Connection refused'') malformed_tail = (None, malformed_tail)"
    by blast
  from a b n d show ?thesis by (simp only: u simp_thms)
qed

end
